theory Spec2Isabelle
  imports Complex_Main
begin

section \<open>The rule editor of the rules-configuration page\<close>

text \<open>
  The page \<^verbatim>\<open>app/(slides)/rules-config/page.tsx\<close> keeps a draft rule in React state
  (\<^verbatim>\<open>formData\<close>), edits its condition list with three handlers and, on the
  Create/Update button, builds the object \<^verbatim>\<open>ruleData\<close> and sends it to the rules API.
  The handlers are pure functions of the rendered state followed by one \<^verbatim>\<open>setFormData\<close>;
  they are embedded as functions from the state to the new state.
\<close>

subsection \<open>JavaScript values the handlers produce\<close>

text \<open>
  \<^verbatim>\<open>interface Condition { field: string; operator: string; value: string }\<close>.
  The handlers build conditions with object spread, and \<^verbatim>\<open>{...undefined, [k]: v}\<close> is an
  object with the single attribute \<^verbatim>\<open>k\<close>; an attribute can therefore be absent at run time
  (\<open>None\<close>), whatever the interface declares.
\<close>

record Condition =
  field :: "string option"
  operator :: "string option"
  "value" :: "string option"

text \<open>\<^verbatim>\<open>keyof Condition\<close>, the type of the handler's \<^verbatim>\<open>field\<close> argument.\<close>

datatype cond_key = K_field | K_operator | K_value

definition get_attr :: "cond_key \<Rightarrow> Condition \<Rightarrow> string option" where
  "get_attr k c = (case k of K_field \<Rightarrow> field c | K_operator \<Rightarrow> operator c | K_value \<Rightarrow> value c)"

text \<open>\<^verbatim>\<open>{ ...c, [k]: v }\<close>\<close>

definition set_attr :: "cond_key \<Rightarrow> string \<Rightarrow> Condition \<Rightarrow> Condition" where
  "set_attr k v c =
     (case k of
        K_field \<Rightarrow> c\<lparr>field := Some v\<rparr>
      | K_operator \<Rightarrow> c\<lparr>operator := Some v\<rparr>
      | K_value \<Rightarrow> c\<lparr>value := Some v\<rparr>)"

text \<open>
  A position of a JavaScript array either holds no element (a hole, left behind by an
  assignment beyond the end), or the value \<^verbatim>\<open>undefined\<close>, or an object.
\<close>

datatype slot = Hole | Undefined | Obj Condition

definition emptyObj :: Condition where
  "emptyObj = \<lparr>field = None, operator = None, value = None\<rparr>"

text \<open>\<^verbatim>\<open>{ ...x }\<close>: spreading \<^verbatim>\<open>undefined\<close> contributes no attribute.\<close>

fun spread_obj :: "slot \<Rightarrow> Condition" where
  "spread_obj (Obj c) = c"
| "spread_obj Undefined = emptyObj"
| "spread_obj Hole = emptyObj"

text \<open>The value the array iterator yields for a position: a hole is read as \<^verbatim>\<open>undefined\<close>.\<close>

fun iter_value :: "slot \<Rightarrow> slot" where
  "iter_value Hole = Undefined"
| "iter_value Undefined = Undefined"
| "iter_value (Obj c) = Obj c"

text \<open>\<^verbatim>\<open>[...xs]\<close>: a fresh array of the iterated values, without holes.\<close>

definition spread_array :: "slot list \<Rightarrow> slot list" where
  "spread_array xs = map iter_value xs"

text \<open>
  The handlers take \<^verbatim>\<open>index: number\<close>; the model takes an \<open>int\<close>. An array index is an
  integer from \<open>0\<close> to \<open>2\<^sup>3\<^sup>2 - 2\<close>; any other key names an ordinary property of the array
  object, which is no element and is seen by none of \<^verbatim>\<open>length\<close>, \<^verbatim>\<open>map\<close>,
  \<^verbatim>\<open>filter\<close>, spread and \<^verbatim>\<open>JSON.stringify\<close>, the only reads the page makes.
\<close>

definition is_array_index :: "int \<Rightarrow> bool" where
  "is_array_index i = (0 \<le> i \<and> i < 4294967295)"

text \<open>\<^verbatim>\<open>xs[i]\<close> as an expression.\<close>

definition js_get :: "slot list \<Rightarrow> int \<Rightarrow> slot" where
  "js_get xs i =
     (if 0 \<le> i \<and> i < int (length xs) then iter_value (xs ! nat i) else Undefined)"

text \<open>
  \<^verbatim>\<open>xs[i] = v\<close>: inside the array the element is replaced; beyond its end the array grows
  to length \<open>i + 1\<close> and the positions in between are holes; a key that is no array index
  leaves the elements alone.
\<close>

definition js_set :: "slot list \<Rightarrow> int \<Rightarrow> slot \<Rightarrow> slot list" where
  "js_set xs i v =
     (if is_array_index i
      then (if nat i < length xs then xs[nat i := v]
            else xs @ replicate (nat i - length xs) Hole @ [v])
      else xs)"

text \<open>
  \<^verbatim>\<open>xs.filter((_, i) => p(i))\<close>: the callback runs on the positions that hold an element,
  with the position's index; holes are skipped and do not reach the result. The first
  argument is the index of the head of the list.
\<close>

fun filter_index :: "nat \<Rightarrow> (int \<Rightarrow> bool) \<Rightarrow> slot list \<Rightarrow> slot list" where
  "filter_index n p [] = []"
| "filter_index n p (x # xs) =
     (if x = Hole then filter_index (Suc n) p xs
      else if p (int n) then x # filter_index (Suc n) p xs
      else filter_index (Suc n) p xs)"

subsection \<open>Strings\<close>

text \<open>
  \<^verbatim>\<open>s.charAt(0).toUpperCase() + s.slice(1)\<close>. Strings are modelled as lists of 8-bit
  characters. JavaScript's \<^verbatim>\<open>toUpperCase\<close> follows Unicode (it sends U+00E9 to U+00C9
  and U+00DF to the two letters SS); of that mapping the model has the ASCII part, which
  sends \<^verbatim>\<open>a\<close>..\<^verbatim>\<open>z\<close> to \<^verbatim>\<open>A\<close>..\<^verbatim>\<open>Z\<close> and leaves the other ASCII characters alone.
  The definitions below agree with the page on ASCII strings, as every value the page's
  selects offer is, and say nothing reliable about other strings: a statement about
  \<open>capitalized\<close> is made for ASCII arguments only.
\<close>

definition toUpperCase_char :: "char \<Rightarrow> char" where
  "toUpperCase_char c =
     (let n = (of_char c :: nat) in if 97 \<le> n \<and> n \<le> 122 then char_of (n - 32) else c)"

definition toUpperCase :: "string \<Rightarrow> string" where
  "toUpperCase s = map toUpperCase_char s"

definition charAt0 :: "string \<Rightarrow> string" where
  "charAt0 s = take 1 s"

definition slice1 :: "string \<Rightarrow> string" where
  "slice1 s = drop 1 s"

definition capitalized :: "string \<Rightarrow> string" where
  "capitalized s = toUpperCase (charAt0 s) @ slice1 s"

text \<open>The strings on which \<open>capitalized\<close> is the page's expression.\<close>

definition ascii :: "string \<Rightarrow> bool" where
  "ascii s = list_all (\<lambda>c. (of_char c :: nat) < 128) s"

subsection \<open>The page state\<close>

record FormData =
  name :: string
  description :: string
  priority :: string
  status :: string
  conditions :: "slot list"
  matchLogic :: string

text \<open>The argument of \<^verbatim>\<open>useState<FormData>\<close>.\<close>

definition initialFormData :: FormData where
  "initialFormData =
     \<lparr>name = '''', description = '''', priority = '''', status = ''inactive'',
      conditions = [], matchLogic = ''all''\<rparr>"

definition defaultConditions :: "slot list" where
  "defaultConditions =
     [Obj \<lparr>field = Some ''amount'', operator = Some ''greater_than'', value = Some ''10000''\<rparr>,
      Obj \<lparr>field = Some ''time'', operator = Some ''outside'', value = Some ''9:00-17:00''\<rparr>]"

text \<open>
  The specification names three client-side errors. The page has no \<^verbatim>\<open>throw\<close> and no
  validating branch; the handlers return a sum so that a failing outcome can be written
  and compared with what they do return.
\<close>

datatype error = ValidationError | IndexOutOfRange | NetworkFailure

subsection \<open>The condition handlers\<close>

definition updateCondition :: "FormData \<Rightarrow> int \<Rightarrow> cond_key \<Rightarrow> string \<Rightarrow> error + FormData" where
  "updateCondition formData index k v =
     (let newConditions = spread_array (conditions formData);
          newConditions' =
            js_set newConditions index (Obj (set_attr k v (spread_obj (js_get newConditions index))))
      in Inr (formData\<lparr>conditions := newConditions'\<rparr>))"

definition removeCondition :: "FormData \<Rightarrow> int \<Rightarrow> error + FormData" where
  "removeCondition formData index =
     (let newConditions = filter_index 0 (\<lambda>i. i \<noteq> index) (conditions formData)
      in Inr (formData\<lparr>conditions := newConditions\<rparr>))"

definition addCondition :: "FormData \<Rightarrow> error + FormData" where
  "addCondition formData =
     Inr (formData\<lparr>conditions :=
            spread_array (conditions formData) @
            [Obj \<lparr>field = Some ''amount'', operator = Some ''greater_than'', value = Some ''''\<rparr>]\<rparr>)"

subsection \<open>Submission\<close>

record page_state =
  formData :: FormData
  selectedRule :: "string option"
  invalidated :: "string list list"

text \<open>The object literal \<^verbatim>\<open>ruleData\<close> of the Create/Update handler.\<close>

definition ruleData :: "FormData \<Rightarrow> FormData" where
  "ruleData fd =
     \<lparr>name = name fd,
      description = description fd,
      priority = capitalized (priority fd),
      status = capitalized (status fd),
      conditions = conditions fd,
      matchLogic = matchLogic fd\<rparr>"

datatype http_method = PUT | POST

text \<open>A call of \<^verbatim>\<open>fetch\<close>; \<open>body\<close> is the object handed to \<^verbatim>\<open>JSON.stringify\<close>.\<close>

record fetch_call =
  url :: string
  http_method :: http_method
  body :: FormData

text \<open>
  The click handler up to its call of \<^verbatim>\<open>fetch\<close>. The test \<^verbatim>\<open>if (selectedRule)\<close> is
  JavaScript truthiness: \<^verbatim>\<open>null\<close> and the empty string take the create branch.
\<close>

definition submitRule :: "page_state \<Rightarrow> error + fetch_call" where
  "submitRule st =
     (case selectedRule st of
        None \<Rightarrow>
          Inr \<lparr>url = ''/api/rules'', http_method = POST, body = ruleData (formData st)\<rparr>
      | Some rid \<Rightarrow>
          (if rid \<noteq> []
           then Inr \<lparr>url = ''/api/rules/'' @ rid, http_method = PUT,
                     body = ruleData (formData st)\<rparr>
           else Inr \<lparr>url = ''/api/rules'', http_method = POST,
                     body = ruleData (formData st)\<rparr>))"

text \<open>
  The promise returned by \<^verbatim>\<open>fetch\<close> rejects on a transport failure and otherwise
  resolves to a response with a status code; \<^verbatim>\<open>response.ok\<close> holds for the codes
  200 to 299.
\<close>

datatype fetch_outcome = Rejected | Resolved nat

definition ok :: "nat \<Rightarrow> bool" where
  "ok code = (200 \<le> code \<and> code \<le> 299)"

text \<open>
  The \<^verbatim>\<open>.then\<close> callbacks of the two branches, run on the state current when the
  response arrives. A rejected promise runs no callback.
\<close>

definition onUpdateResponse :: "nat \<Rightarrow> page_state \<Rightarrow> page_state" where
  "onUpdateResponse code st =
     (if ok code
      then st\<lparr>invalidated := invalidated st @ [[''rules'']], selectedRule := None\<rparr>
      else st)"

definition onCreateResponse :: "nat \<Rightarrow> page_state \<Rightarrow> page_state" where
  "onCreateResponse code st =
     (if ok code
      then st\<lparr>invalidated := invalidated st @ [[''rules'']],
              formData :=
                \<lparr>name = '''', description = '''', priority = '''', status = ''inactive'',
                 conditions = defaultConditions, matchLogic = ''all''\<rparr>\<rparr>
      else st)"

fun settle :: "http_method \<Rightarrow> fetch_outcome \<Rightarrow> page_state \<Rightarrow> page_state" where
  "settle m Rejected st = st"
| "settle PUT (Resolved code) st = onUpdateResponse code st"
| "settle POST (Resolved code) st = onCreateResponse code st"

section \<open>The Pagination component\<close>

text \<open>
  \<^verbatim>\<open>components/ui/Pagination.tsx\<close> renders two buttons. A button is modelled by its
  \<^verbatim>\<open>disabled\<close> attribute and by the page its \<^verbatim>\<open>onClick\<close> passes to
  \<^verbatim>\<open>onPageChange\<close>.

  The props \<^verbatim>\<open>currentPage\<close> and \<^verbatim>\<open>totalPages\<close> are JavaScript numbers, that is
  double-precision floats, and need not be integers. The model takes real numbers and
  computes \<^verbatim>\<open>currentPage - 1\<close> and \<^verbatim>\<open>currentPage + 1\<close> exactly. A double sum is the
  exact sum rounded to the nearest double, so the model gives the page the code requests
  wherever the exact result is a double: for every integer \<^verbatim>\<open>currentPage\<close> from
  \<open>1 - 2\<^sup>5\<^sup>3\<close> to \<open>2\<^sup>5\<^sup>3 - 1\<close> in particular, and at 2 + 1. Beyond \<open>2\<^sup>5\<^sup>3\<close> the code's sum
  is rounded (\<open>2\<^sup>5\<^sup>3 + 1\<close> evaluates to \<open>2\<^sup>5\<^sup>3\<close>) and the model does not follow it; the
  values \<^verbatim>\<open>NaN\<close> and \<^verbatim>\<open>Infinity\<close> are not represented.
\<close>

record Button =
  disabled :: bool
  onClick :: real

record Pagination_view =
  previousButton :: Button
  nextButton :: Button

definition Pagination :: "real \<Rightarrow> real \<Rightarrow> Pagination_view" where
  "Pagination currentPage totalPages =
     \<lparr>previousButton = \<lparr>disabled = (currentPage = 1), onClick = currentPage - 1\<rparr>,
      nextButton = \<lparr>disabled = (currentPage = totalPages), onClick = currentPage + 1\<rparr>\<rparr>"

text \<open>
  Modelled from the spec: the \<^verbatim>\<open>Button\<close> component of \<^verbatim>\<open>components/ui/button\<close> is not
  among the sources, and the specification does not describe it. The claim about the
  disabled controls reads it as an HTML button, which receives \<^verbatim>\<open>disabled\<close> and
  \<^verbatim>\<open>onClick\<close> and runs no handler while it is disabled; this definition states that
  reading. The result lists the calls of \<^verbatim>\<open>onPageChange\<close> a click makes.
\<close>

definition click :: "Button \<Rightarrow> real list" where
  "click b = (if disabled b then [] else [onClick b])"

section \<open>Facts about the array operations\<close>

lemma iter_value_idem: "iter_value (iter_value s) = iter_value s"
  by (cases s) simp_all

lemma iter_value_no_hole: "s \<noteq> Hole \<Longrightarrow> iter_value s = s"
  by (cases s) simp_all

lemma spread_array_dense: "Hole \<notin> set xs \<Longrightarrow> spread_array xs = xs"
  by (induction xs) (auto simp: spread_array_def iter_value_no_hole)

lemma length_spread_array: "length (spread_array xs) = length xs"
  by (simp add: spread_array_def)

lemma js_get_spread_array: "js_get (spread_array xs) i = js_get xs i"
proof (cases "0 \<le> i \<and> i < int (length xs)")
  case True
  then have "nat i < length xs" by linarith
  then have "map iter_value xs ! nat i = iter_value (xs ! nat i)" by simp
  then show ?thesis using True by (simp add: js_get_def spread_array_def iter_value_idem)
next
  case False
  then show ?thesis by (auto simp: js_get_def spread_array_def)
qed

lemma js_get_append_left:
  "j < int (length xs) \<Longrightarrow> js_get (xs @ ys) j = js_get xs j"
proof (cases "0 \<le> j")
  case True
  assume "j < int (length xs)"
  with True have "nat j < length xs" by linarith
  then have "(xs @ ys) ! nat j = xs ! nat j" by (simp add: nth_append)
  then show ?thesis using True \<open>j < int (length xs)\<close> by (simp add: js_get_def)
next
  case False
  then show ?thesis by (simp add: js_get_def)
qed

text \<open>
  On an array without holes, filtering out one index removes the element at that index
  when there is one, and nothing otherwise.
\<close>

lemma filter_index_dense:
  "Hole \<notin> set xs \<Longrightarrow>
   filter_index n (\<lambda>i. i \<noteq> idx) xs =
     (if int n \<le> idx \<and> idx < int n + int (length xs)
      then take (nat (idx - int n)) xs @ drop (Suc (nat (idx - int n))) xs
      else xs)"
proof (induction xs arbitrary: n)
  case Nil
  then show ?case by simp
next
  case (Cons x xs)
  then have hx: "x \<noteq> Hole" and hxs: "Hole \<notin> set xs" by auto
  show ?case
  proof (cases "idx = int n")
    case True
    then show ?thesis using hx hxs Cons.IH [of "Suc n"] by simp
  next
    case False
    show ?thesis
    proof (cases "int n < idx \<and> idx < int n + int (length (x # xs))")
      case True
      then have "nat (idx - int n) = Suc (nat (idx - int (Suc n)))" by linarith
      then show ?thesis using True hx hxs False Cons.IH [of "Suc n"] by simp
    next
      case F2: False
      then show ?thesis using hx hxs False Cons.IH [of "Suc n"] by auto
    qed
  qed
qed

lemma get_set_attr_same: "get_attr k (set_attr k v c) = Some v"
  by (cases k) (simp_all add: get_attr_def set_attr_def)

lemma get_set_attr_other: "k' \<noteq> k \<Longrightarrow> get_attr k' (set_attr k v c) = get_attr k' c"
  by (cases k; cases k') (simp_all add: get_attr_def set_attr_def)

lemma capitalized_high: "capitalized ''high'' = ''High''"
  by code_simp

lemma capitalized_medium: "capitalized ''medium'' = ''Medium''"
  by code_simp

lemma capitalized_low: "capitalized ''low'' = ''Low''"
  by code_simp

lemma capitalized_active: "capitalized ''active'' = ''Active''"
  by code_simp

lemma capitalized_inactive: "capitalized ''inactive'' = ''Inactive''"
  by code_simp

lemma capitalized_empty: "capitalized [] = []"
  by code_simp

section \<open>The condition handlers\<close>

text \<open>
  Claim C8. For every draft, \<^verbatim>\<open>addCondition\<close> returns without an error (it validates
  nothing) a draft whose condition list is one longer, whose last entry is the default
  condition with field \<^verbatim>\<open>amount\<close>, operator \<^verbatim>\<open>greater_than\<close> and the empty value, and
  whose earlier entries read as before; when the list has an element at every position
  the new list is the old one with the default condition appended. The other fields of
  the draft are kept.
\<close>

theorem addCondition_appends_default:
  "\<exists>fd'. addCondition fd = Inr fd'
     \<and> length (conditions fd') = length (conditions fd) + 1
     \<and> conditions fd' ! length (conditions fd) =
         Obj \<lparr>field = Some ''amount'', operator = Some ''greater_than'', value = Some ''''\<rparr>
     \<and> (\<forall>j. j < int (length (conditions fd)) \<longrightarrow>
            js_get (conditions fd') j = js_get (conditions fd) j)
     \<and> (Hole \<notin> set (conditions fd) \<longrightarrow>
            conditions fd' = conditions fd @
              [Obj \<lparr>field = Some ''amount'', operator = Some ''greater_than'', value = Some ''''\<rparr>])
     \<and> name fd' = name fd \<and> description fd' = description fd \<and> priority fd' = priority fd
     \<and> status fd' = status fd \<and> matchLogic fd' = matchLogic fd"
proof -
  let ?d = "Obj \<lparr>field = Some ''amount'', operator = Some ''greater_than'', value = Some ''''\<rparr>"
  let ?cs = "spread_array (conditions fd) @ [?d]"
  have len: "length ?cs = length (conditions fd) + 1"
    by (simp add: length_spread_array)
  have lst: "?cs ! length (conditions fd) = ?d"
    by (simp add: nth_append length_spread_array)
  have rd: "\<forall>j. j < int (length (conditions fd)) \<longrightarrow> js_get ?cs j = js_get (conditions fd) j"
    by (simp add: js_get_append_left length_spread_array js_get_spread_array)
  have dn: "Hole \<notin> set (conditions fd) \<longrightarrow> ?cs = conditions fd @ [?d]"
    by (simp add: spread_array_dense)
  have "addCondition fd = Inr (fd\<lparr>conditions := ?cs\<rparr>)"
    by (simp add: addCondition_def)
  with len lst rd dn show ?thesis by simp
qed

theorem addCondition_appends_default_witness:
  "Hole \<notin> set defaultConditions
   \<and> (0::int) < int (length defaultConditions)
   \<and> (\<exists>fd'. addCondition (initialFormData\<lparr>conditions := defaultConditions\<rparr>) = Inr fd'
         \<and> length (conditions fd') = 3
         \<and> js_get (conditions fd') 0 = js_get defaultConditions 0
         \<and> conditions fd' = defaultConditions @
              [Obj \<lparr>field = Some ''amount'', operator = Some ''greater_than'', value = Some ''''\<rparr>])"
  using addCondition_appends_default [of "initialFormData\<lparr>conditions := defaultConditions\<rparr>"]
  by (auto simp: defaultConditions_def)

text \<open>
  Claim C7. On a condition list (an array with an element at every position) and a valid
  index, \<^verbatim>\<open>removeCondition\<close> returns a list shorter by exactly one, in which the
  conditions before the index keep their positions and those after it move down by one,
  in their order; on an index outside the list it returns the draft unchanged.
\<close>

theorem removeCondition_removes_one:
  assumes "Hole \<notin> set (conditions fd)"
  shows "(0 \<le> i \<and> i < int (length (conditions fd)) \<longrightarrow>
            (\<exists>fd'. removeCondition fd i = Inr fd'
               \<and> length (conditions fd') + 1 = length (conditions fd)
               \<and> conditions fd' =
                   take (nat i) (conditions fd) @ drop (Suc (nat i)) (conditions fd)
               \<and> (\<forall>j < length (conditions fd').
                      conditions fd' ! j = conditions fd ! (if j < nat i then j else Suc j))
               \<and> name fd' = name fd \<and> description fd' = description fd
               \<and> priority fd' = priority fd \<and> status fd' = status fd
               \<and> matchLogic fd' = matchLogic fd))
       \<and> (i < 0 \<or> int (length (conditions fd)) \<le> i \<longrightarrow> removeCondition fd i = Inr fd)"
proof (intro conjI impI)
  assume v: "0 \<le> i \<and> i < int (length (conditions fd))"
  let ?cs = "conditions fd"
  let ?r = "take (nat i) ?cs @ drop (Suc (nat i)) ?cs"
  from v have lt: "nat i < length ?cs" by linarith
  have f: "filter_index 0 (\<lambda>j. j \<noteq> i) ?cs = ?r"
    using filter_index_dense [OF assms, of 0 i] v by simp
  have len: "length ?r + 1 = length ?cs"
    using lt by simp
  have nth: "\<forall>j < length ?r. ?r ! j = ?cs ! (if j < nat i then j else Suc j)"
  proof (intro allI impI)
    fix j assume j: "j < length ?r"
    show "?r ! j = ?cs ! (if j < nat i then j else Suc j)"
    proof (cases "j < nat i")
      case True
      then show ?thesis using lt by (simp add: nth_append)
    next
      case False
      then have "?r ! j = drop (Suc (nat i)) ?cs ! (j - nat i)"
        using lt by (simp add: nth_append min_def)
      also have "\<dots> = ?cs ! (Suc (nat i) + (j - nat i))"
        using lt j by (intro nth_drop) simp
      finally show ?thesis using False by simp
    qed
  qed
  have "removeCondition fd i = Inr (fd\<lparr>conditions := ?r\<rparr>)"
    by (simp add: removeCondition_def f)
  with len nth show "\<exists>fd'. removeCondition fd i = Inr fd'
               \<and> length (conditions fd') + 1 = length (conditions fd)
               \<and> conditions fd' =
                   take (nat i) (conditions fd) @ drop (Suc (nat i)) (conditions fd)
               \<and> (\<forall>j < length (conditions fd').
                      conditions fd' ! j = conditions fd ! (if j < nat i then j else Suc j))
               \<and> name fd' = name fd \<and> description fd' = description fd
               \<and> priority fd' = priority fd \<and> status fd' = status fd
               \<and> matchLogic fd' = matchLogic fd"
    by simp
next
  assume o: "i < 0 \<or> int (length (conditions fd)) \<le> i"
  have "filter_index 0 (\<lambda>j. j \<noteq> i) (conditions fd) = conditions fd"
    using filter_index_dense [OF assms, of 0 i] o by auto
  then show "removeCondition fd i = Inr fd"
    by (simp add: removeCondition_def)
qed

theorem removeCondition_removes_one_witness:
  "Hole \<notin> set defaultConditions
   \<and> (0::int) \<le> 0 \<and> (0::int) < int (length defaultConditions)
   \<and> removeCondition (initialFormData\<lparr>conditions := defaultConditions\<rparr>) 0 =
       Inr (initialFormData\<lparr>conditions :=
         [Obj \<lparr>field = Some ''time'', operator = Some ''outside'', value = Some ''9:00-17:00''\<rparr>]\<rparr>)
   \<and> int (length defaultConditions) \<le> 2
   \<and> removeCondition (initialFormData\<lparr>conditions := defaultConditions\<rparr>) 2 =
       Inr (initialFormData\<lparr>conditions := defaultConditions\<rparr>)
   \<and> removeCondition (initialFormData\<lparr>conditions := defaultConditions\<rparr>) (- 1) =
       Inr (initialFormData\<lparr>conditions := defaultConditions\<rparr>)"
proof -
  let ?fd = "initialFormData\<lparr>conditions := defaultConditions\<rparr>"
  have h: "Hole \<notin> set (conditions ?fd)"
    by (simp add: defaultConditions_def)
  show ?thesis
    using removeCondition_removes_one [OF h, of 0] removeCondition_removes_one [OF h, of 2]
      removeCondition_removes_one [OF h, of "- 1"]
    by (auto simp: defaultConditions_def initialFormData_def)
qed

text \<open>
  Claim C6. On a condition list (an array of at most \<open>2\<^sup>3\<^sup>2 - 1\<close> positions, the largest
  a JavaScript array has, with an element at every position), a valid index holding a
  condition, any attribute name and any string, \<^verbatim>\<open>updateCondition\<close> returns a draft
  whose list has the same length, whose condition at the index has the named attribute
  set to the string and every other attribute as before, and whose other entries are the
  entries of the old list. The other fields of the draft are kept.
\<close>

theorem updateCondition_changes_one_attribute:
  assumes "Hole \<notin> set (conditions fd)"
    and "length (conditions fd) \<le> 4294967295"
    and "0 \<le> i" and "i < int (length (conditions fd))"
    and "conditions fd ! nat i = Obj c"
  shows "\<exists>fd' c'. updateCondition fd i k v = Inr fd'
           \<and> length (conditions fd') = length (conditions fd)
           \<and> conditions fd' ! nat i = Obj c'
           \<and> get_attr k c' = Some v
           \<and> (\<forall>k'. k' \<noteq> k \<longrightarrow> get_attr k' c' = get_attr k' c)
           \<and> (\<forall>j < length (conditions fd). j \<noteq> nat i \<longrightarrow>
                  conditions fd' ! j = conditions fd ! j)
           \<and> name fd' = name fd \<and> description fd' = description fd
           \<and> priority fd' = priority fd \<and> status fd' = status fd
           \<and> matchLogic fd' = matchLogic fd"
proof -
  let ?cs = "conditions fd"
  from assms(3,4) have lt: "nat i < length ?cs" by linarith
  have sp: "spread_array ?cs = ?cs"
    by (rule spread_array_dense [OF assms(1)])
  have ix: "is_array_index i"
    using assms(2,3,4) by (simp add: is_array_index_def)
  have gt: "js_get ?cs i = Obj c"
    using assms(3,4,5) by (simp add: js_get_def)
  have st: "js_set ?cs i (Obj (set_attr k v c)) = ?cs[nat i := Obj (set_attr k v c)]"
    using ix lt by (simp add: js_set_def)
  have eq: "updateCondition fd i k v = Inr (fd\<lparr>conditions := ?cs[nat i := Obj (set_attr k v c)]\<rparr>)"
    by (simp add: updateCondition_def Let_def sp gt st)
  have a: "get_attr k (set_attr k v c) = Some v"
    by (rule get_set_attr_same)
  have b: "\<forall>k'. k' \<noteq> k \<longrightarrow> get_attr k' (set_attr k v c) = get_attr k' c"
    by (simp add: get_set_attr_other)
  show ?thesis
    using eq lt a b by (intro exI [of _ "fd\<lparr>conditions := ?cs[nat i := Obj (set_attr k v c)]\<rparr>"]
      exI [of _ "set_attr k v c"]) simp
qed

theorem updateCondition_changes_one_attribute_witness:
  "Hole \<notin> set defaultConditions
   \<and> length defaultConditions \<le> 4294967295
   \<and> (0::int) \<le> 1 \<and> (1::int) < int (length defaultConditions)
   \<and> defaultConditions ! nat 1 =
       Obj \<lparr>field = Some ''time'', operator = Some ''outside'', value = Some ''9:00-17:00''\<rparr>
   \<and> (\<exists>fd' c'. updateCondition (initialFormData\<lparr>conditions := defaultConditions\<rparr>) 1
                   K_operator ''within'' = Inr fd'
         \<and> length (conditions fd') = 2
         \<and> conditions fd' ! 1 = Obj c'
         \<and> get_attr K_operator c' = Some ''within''
         \<and> get_attr K_field c' = Some ''time''
         \<and> get_attr K_value c' = Some ''9:00-17:00''
         \<and> conditions fd' ! 0 = defaultConditions ! 0)"
proof -
  let ?fd = "initialFormData\<lparr>conditions := defaultConditions\<rparr>"
  let ?c = "\<lparr>field = Some ''time'', operator = Some ''outside'', value = Some ''9:00-17:00''\<rparr>"
  have h1: "Hole \<notin> set (conditions ?fd)" by (simp add: defaultConditions_def)
  have h2: "length (conditions ?fd) \<le> 4294967295" by (simp add: defaultConditions_def)
  have h3: "(0::int) \<le> 1" by simp
  have h4: "(1::int) < int (length (conditions ?fd))" by (simp add: defaultConditions_def)
  have h5: "conditions ?fd ! nat 1 = Obj ?c" by (simp add: defaultConditions_def)
  obtain fd' c' where r: "updateCondition ?fd 1 K_operator ''within'' = Inr fd'"
      "length (conditions fd') = length (conditions ?fd)"
      "conditions fd' ! nat 1 = Obj c'"
      "get_attr K_operator c' = Some ''within''"
      "\<forall>k'. k' \<noteq> K_operator \<longrightarrow> get_attr k' c' = get_attr k' ?c"
      "\<forall>j < length (conditions ?fd). j \<noteq> nat 1 \<longrightarrow> conditions fd' ! j = conditions ?fd ! j"
    using updateCondition_changes_one_attribute [OF h1 h2 h3 h4 h5, of K_operator "''within''"]
    by blast
  from r(5) have "get_attr K_field c' = get_attr K_field ?c"
    and "get_attr K_value c' = get_attr K_value ?c"
    by simp_all
  then have f: "get_attr K_field c' = Some ''time''"
    and g: "get_attr K_value c' = Some ''9:00-17:00''"
    by (simp_all add: get_attr_def)
  from r(6) have z: "conditions fd' ! 0 = defaultConditions ! 0"
    by (simp add: defaultConditions_def)
  from r(2) have l: "length (conditions fd') = 2" by (simp add: defaultConditions_def)
  from r(3) have o: "conditions fd' ! 1 = Obj c'" by simp
  show ?thesis
    using h1 h2 h4 h5 r(1) r(4) f g z l o by auto
qed

text \<open>
  Claim C2, as the specification states it: on an index that is no position of the list,
  \<^verbatim>\<open>updateCondition\<close> fails with \<open>IndexOutOfRange\<close> and the list stays as it was. The
  handler has no range check. On the two default conditions and index 3 it returns a
  list of four positions: the two conditions, a hole, and an object that has the
  attribute \<^verbatim>\<open>value\<close> alone.
\<close>

theorem updateCondition_out_of_range_counterexample:
  "updateCondition (initialFormData\<lparr>conditions := defaultConditions\<rparr>) 3 K_value ''500''
     \<noteq> Inl IndexOutOfRange
   \<and> updateCondition (initialFormData\<lparr>conditions := defaultConditions\<rparr>) 3 K_value ''500''
     = Inr (initialFormData\<lparr>conditions :=
         [Obj \<lparr>field = Some ''amount'', operator = Some ''greater_than'', value = Some ''10000''\<rparr>,
          Obj \<lparr>field = Some ''time'', operator = Some ''outside'', value = Some ''9:00-17:00''\<rparr>,
          Hole,
          Obj \<lparr>field = None, operator = None, value = Some ''500''\<rparr>]\<rparr>)
   \<and> length defaultConditions = 2"
  by (simp add: updateCondition_def defaultConditions_def spread_array_def js_get_def js_set_def
      is_array_index_def set_attr_def emptyObj_def initialFormData_def)

text \<open>
  Claim C2, amended. On an index that is no position of the list, \<^verbatim>\<open>updateCondition\<close>
  does not fail. When the index is negative (or no array index at all) the new list is a
  copy of the old one. When the index lies at or beyond the end, the new list has length
  index + 1: the old entries, then holes, then at the index an object holding the named
  attribute and no other. In both cases every old position reads as before and the other
  fields of the draft are kept.
\<close>

theorem updateCondition_outside_list:
  assumes "i < 0 \<or> int (length (conditions fd)) \<le> i"
  shows "\<exists>fd'. updateCondition fd i k v = Inr fd'
           \<and> (i < 0 \<or> 4294967295 \<le> i \<longrightarrow> conditions fd' = spread_array (conditions fd))
           \<and> (0 \<le> i \<and> i < 4294967295 \<longrightarrow>
                 conditions fd' =
                   spread_array (conditions fd) @
                   replicate (nat i - length (conditions fd)) Hole @
                   [Obj (set_attr k v emptyObj)]
                 \<and> length (conditions fd') = nat i + 1)
           \<and> get_attr k (set_attr k v emptyObj) = Some v
           \<and> (\<forall>k'. k' \<noteq> k \<longrightarrow> get_attr k' (set_attr k v emptyObj) = None)
           \<and> (\<forall>j. j < int (length (conditions fd)) \<longrightarrow>
                  js_get (conditions fd') j = js_get (conditions fd) j)
           \<and> name fd' = name fd \<and> description fd' = description fd
           \<and> priority fd' = priority fd \<and> status fd' = status fd
           \<and> matchLogic fd' = matchLogic fd"
proof -
  let ?cs = "conditions fd"
  let ?sp = "spread_array ?cs"
  let ?o = "Obj (set_attr k v emptyObj)"
  have len: "length ?sp = length ?cs" by (rule length_spread_array)
  have und: "js_get ?sp i = Undefined"
    using assms by (auto simp: js_get_def len)
  have eq: "updateCondition fd i k v = Inr (fd\<lparr>conditions := js_set ?sp i ?o\<rparr>)"
    by (simp add: updateCondition_def Let_def und)
  have none: "\<forall>k'. k' \<noteq> k \<longrightarrow> get_attr k' (set_attr k v emptyObj) = None"
    by (simp add: get_set_attr_other) (simp add: get_attr_def emptyObj_def split: cond_key.split)
  have a: "i < 0 \<or> 4294967295 \<le> i \<longrightarrow> js_set ?sp i ?o = ?sp"
    by (auto simp: js_set_def is_array_index_def)
  have b: "0 \<le> i \<and> i < 4294967295 \<longrightarrow>
             js_set ?sp i ?o = ?sp @ replicate (nat i - length ?cs) Hole @ [?o]
             \<and> length (js_set ?sp i ?o) = nat i + 1"
  proof
    assume r: "0 \<le> i \<and> i < 4294967295"
    with assms have ge: "length ?cs \<le> nat i" by linarith
    then have "js_set ?sp i ?o = ?sp @ replicate (nat i - length ?cs) Hole @ [?o]"
      using r by (simp add: js_set_def is_array_index_def len)
    then show "js_set ?sp i ?o = ?sp @ replicate (nat i - length ?cs) Hole @ [?o]
             \<and> length (js_set ?sp i ?o) = nat i + 1"
      using ge by (simp add: len)
  qed
  have rd: "\<forall>j. j < int (length ?cs) \<longrightarrow> js_get (js_set ?sp i ?o) j = js_get ?cs j"
  proof (intro allI impI)
    fix j assume j: "j < int (length ?cs)"
    show "js_get (js_set ?sp i ?o) j = js_get ?cs j"
    proof (cases "0 \<le> i \<and> i < 4294967295")
      case True
      with b have "js_set ?sp i ?o = ?sp @ (replicate (nat i - length ?cs) Hole @ [?o])"
        by simp
      then show ?thesis
        using j by (simp add: js_get_append_left len js_get_spread_array)
    next
      case False
      with a have "js_set ?sp i ?o = ?sp" by auto
      then show ?thesis by (simp add: js_get_spread_array)
    qed
  qed
  have b2: "0 \<le> i \<and> i < 4294967295 \<longrightarrow>
             length (?sp @ replicate (nat i - length ?cs) Hole @ [?o]) = nat i + 1"
    using b by auto
  show ?thesis
    using eq a b b2 none rd get_set_attr_same [of k v emptyObj]
    by (intro exI [of _ "fd\<lparr>conditions := js_set ?sp i ?o\<rparr>"]) simp
qed

theorem updateCondition_outside_list_witness:
  "(int (length defaultConditions) \<le> 3)
   \<and> (\<exists>fd'. updateCondition (initialFormData\<lparr>conditions := defaultConditions\<rparr>) 3
               K_value ''500'' = Inr fd'
         \<and> length (conditions fd') = 4
         \<and> conditions fd' = defaultConditions @ [Hole, Obj (set_attr K_value ''500'' emptyObj)])
   \<and> (- 1 :: int) < 0
   \<and> (\<exists>fd'. updateCondition (initialFormData\<lparr>conditions := defaultConditions\<rparr>) (- 1)
               K_value ''500'' = Inr fd'
         \<and> conditions fd' = defaultConditions)"
proof -
  let ?fd = "initialFormData\<lparr>conditions := defaultConditions\<rparr>"
  have h1: "3 < 0 \<or> int (length (conditions ?fd)) \<le> 3"
    by (simp add: defaultConditions_def)
  have h2: "(- 1 :: int) < 0 \<or> int (length (conditions ?fd)) \<le> - 1"
    by simp
  have sp: "spread_array defaultConditions = defaultConditions"
    by (simp add: spread_array_def defaultConditions_def)
  have rp: "replicate (3 - length defaultConditions) Hole = [Hole]"
    by (simp add: defaultConditions_def)
  show ?thesis
    using updateCondition_outside_list [OF h1, of K_value "''500''"]
      updateCondition_outside_list [OF h2, of K_value "''500''"] h1
    by (auto simp: sp rp)
qed

section \<open>Submission of the draft\<close>

text \<open>
  Claim C1, as the specification states it: a draft with an empty name, an unset priority
  or a condition with an empty value is rejected with \<open>ValidationError\<close> and is not
  submitted. The click handler validates nothing. On the initial draft, whose name and
  priority are empty, it posts the payload to \<^verbatim>\<open>/api/rules\<close>.
\<close>

theorem submitRule_empty_draft_counterexample:
  "name initialFormData = ''''
   \<and> priority initialFormData = ''''
   \<and> submitRule \<lparr>formData = initialFormData, selectedRule = None, invalidated = []\<rparr>
       \<noteq> Inl ValidationError
   \<and> submitRule \<lparr>formData = initialFormData, selectedRule = None, invalidated = []\<rparr>
       = Inr \<lparr>url = ''/api/rules'', http_method = POST,
              body = \<lparr>name = '''', description = '''', priority = '''', status = ''Inactive'',
                      conditions = [], matchLogic = ''all''\<rparr>\<rparr>"
  by (simp add: submitRule_def ruleData_def initialFormData_def capitalized_empty
      capitalized_inactive)

text \<open>
  Claim C1, amended. For every draft, also one with an empty name, an unset priority or
  a condition with an empty value, the click handler does not fail and submits the
  draft: it issues one request whose body has the name, the description, the condition
  list and the match logic of the draft unchanged and, for a priority and a status
  written in ASCII, the priority and the status with the first letter in upper case.
  The request is a POST to \<^verbatim>\<open>/api/rules\<close> when no rule is selected (the selection is
  \<^verbatim>\<open>null\<close> or the empty string) and a PUT to \<^verbatim>\<open>/api/rules/\<close> followed by the id when
  one is.
\<close>

theorem submitRule_submits_every_draft:
  "\<exists>req. submitRule st = Inr req
     \<and> name (body req) = name (formData st)
     \<and> description (body req) = description (formData st)
     \<and> conditions (body req) = conditions (formData st)
     \<and> matchLogic (body req) = matchLogic (formData st)
     \<and> (ascii (priority (formData st)) \<longrightarrow>
            priority (body req) = capitalized (priority (formData st)))
     \<and> (ascii (status (formData st)) \<longrightarrow>
            status (body req) = capitalized (status (formData st)))
     \<and> (selectedRule st = None \<or> selectedRule st = Some [] \<longrightarrow>
            http_method req = POST \<and> url req = ''/api/rules'')
     \<and> (\<forall>rid. selectedRule st = Some rid \<and> rid \<noteq> [] \<longrightarrow>
            http_method req = PUT \<and> url req = ''/api/rules/'' @ rid)"
proof (cases "selectedRule st")
  case None
  then show ?thesis by (simp add: submitRule_def ruleData_def)
next
  case (Some rid)
  then show ?thesis by (cases "rid = []") (simp_all add: submitRule_def ruleData_def)
qed

theorem submitRule_submits_every_draft_witness:
  "ascii '''' \<and> ascii ''inactive'' \<and> ascii ''high'' \<and> ascii ''active''
   \<and> (\<exists>req. submitRule \<lparr>formData = initialFormData, selectedRule = None, invalidated = []\<rparr>
            = Inr req
        \<and> name (body req) = '''' \<and> priority (body req) = '''' \<and> conditions (body req) = []
        \<and> status (body req) = ''Inactive''
        \<and> http_method req = POST \<and> url req = ''/api/rules'')
   \<and> (\<exists>req. submitRule
              \<lparr>formData = \<lparr>name = ''Large'', description = '''', priority = ''high'',
                  status = ''active'',
                  conditions = [Obj \<lparr>field = Some ''amount'', operator = Some ''greater_than'',
                                       value = Some ''''\<rparr>],
                  matchLogic = ''all''\<rparr>,
               selectedRule = Some ''R001'', invalidated = []\<rparr> = Inr req
        \<and> name (body req) = ''Large'' \<and> priority (body req) = ''High''
        \<and> status (body req) = ''Active''
        \<and> conditions (body req) =
              [Obj \<lparr>field = Some ''amount'', operator = Some ''greater_than'',
                    value = Some ''''\<rparr>]
        \<and> http_method req = PUT \<and> url req = ''/api/rules/R001'')
   \<and> (\<exists>req. submitRule \<lparr>formData = initialFormData, selectedRule = Some [], invalidated = []\<rparr>
            = Inr req
        \<and> http_method req = POST \<and> url req = ''/api/rules'')"
proof -
  have a: "ascii '''' \<and> ascii ''inactive'' \<and> ascii ''high'' \<and> ascii ''active''"
    by (simp add: ascii_def)
  show ?thesis
    using a submitRule_submits_every_draft
      [of "\<lparr>formData = initialFormData, selectedRule = None, invalidated = []\<rparr>"]
    submitRule_submits_every_draft
      [of "\<lparr>formData = \<lparr>name = ''Large'', description = '''', priority = ''high'',
                  status = ''active'',
                  conditions = [Obj \<lparr>field = Some ''amount'', operator = Some ''greater_than'',
                                       value = Some ''''\<rparr>],
                  matchLogic = ''all''\<rparr>,
               selectedRule = Some ''R001'', invalidated = []\<rparr>"]
    submitRule_submits_every_draft
      [of "\<lparr>formData = initialFormData, selectedRule = Some [], invalidated = []\<rparr>"]
    by (auto simp: initialFormData_def capitalized_empty capitalized_high capitalized_active
        capitalized_inactive)
qed

text \<open>
  Claim C3, as the specification states it: the priority of every submitted payload is
  one of \<^verbatim>\<open>High\<close>, \<^verbatim>\<open>Medium\<close>, \<^verbatim>\<open>Low\<close>. The initial draft has the empty priority
  (the select shows its placeholder), the click handler submits it, and the first letter
  of the empty string in upper case is the empty string.
\<close>

theorem submitRule_unset_priority_counterexample:
  "submitRule \<lparr>formData = initialFormData, selectedRule = None, invalidated = []\<rparr>
     = Inr \<lparr>url = ''/api/rules'', http_method = POST, body = ruleData initialFormData\<rparr>
   \<and> priority (ruleData initialFormData) = ''''
   \<and> priority (ruleData initialFormData) \<notin> {''High'', ''Medium'', ''Low''}"
  by (simp add: submitRule_def ruleData_def initialFormData_def capitalized_empty)

text \<open>
  Claim C3, amended. For every submitted draft whose priority is one of the values the
  editor's select offers (\<^verbatim>\<open>high\<close>, \<^verbatim>\<open>medium\<close>, \<^verbatim>\<open>low\<close>) and whose status is
  \<^verbatim>\<open>active\<close> or \<^verbatim>\<open>inactive\<close>, the payload of the request, POST or PUT, has the
  matching priority among \<^verbatim>\<open>High\<close>, \<^verbatim>\<open>Medium\<close>, \<^verbatim>\<open>Low\<close> and the matching status among
  \<^verbatim>\<open>Active\<close>, \<^verbatim>\<open>Inactive\<close>.
\<close>

theorem submitRule_capitalizes_offered_values:
  assumes "priority (formData st) \<in> {''high'', ''medium'', ''low''}"
    and "status (formData st) \<in> {''active'', ''inactive''}"
  shows "\<exists>req. submitRule st = Inr req
           \<and> priority (body req) \<in> {''High'', ''Medium'', ''Low''}
           \<and> status (body req) \<in> {''Active'', ''Inactive''}
           \<and> (priority (formData st), priority (body req))
                \<in> {(''high'', ''High''), (''medium'', ''Medium''), (''low'', ''Low'')}
           \<and> (status (formData st), status (body req))
                \<in> {(''active'', ''Active''), (''inactive'', ''Inactive'')}"
proof -
  have p: "(priority (formData st), capitalized (priority (formData st)))
             \<in> {(''high'', ''High''), (''medium'', ''Medium''), (''low'', ''Low'')}"
    using assms(1) capitalized_high capitalized_medium capitalized_low by auto
  have s: "(status (formData st), capitalized (status (formData st)))
             \<in> {(''active'', ''Active''), (''inactive'', ''Inactive'')}"
    using assms(2) capitalized_active capitalized_inactive by auto
  have p': "capitalized (priority (formData st)) \<in> {''High'', ''Medium'', ''Low''}"
    using p by auto
  have s': "capitalized (status (formData st)) \<in> {''Active'', ''Inactive''}"
    using s by auto
  have b: "\<exists>req. submitRule st = Inr req \<and> body req = ruleData (formData st)"
    by (cases "selectedRule st") (auto simp: submitRule_def)
  then obtain req where r: "submitRule st = Inr req" "body req = ruleData (formData st)"
    by blast
  have "priority (body req) = capitalized (priority (formData st))"
    and "status (body req) = capitalized (status (formData st))"
    using r(2) by (simp_all add: ruleData_def)
  with p s p' s' r(1) show ?thesis by auto
qed

theorem submitRule_capitalizes_offered_values_witness:
  "''medium'' \<in> {''high'', ''medium'', ''low''}
   \<and> ''inactive'' \<in> {''active'', ''inactive''}
   \<and> (\<exists>req. submitRule
              \<lparr>formData = initialFormData\<lparr>name := ''After Hours'', priority := ''medium''\<rparr>,
               selectedRule = Some ''R005'', invalidated = []\<rparr> = Inr req
         \<and> priority (body req) = ''Medium'' \<and> status (body req) = ''Inactive'')"
proof -
  let ?st = "\<lparr>formData = initialFormData\<lparr>name := ''After Hours'', priority := ''medium''\<rparr>,
               selectedRule = Some ''R005'', invalidated = []\<rparr>"
  have h1: "priority (formData ?st) \<in> {''high'', ''medium'', ''low''}"
    by (simp add: initialFormData_def)
  have h2: "status (formData ?st) \<in> {''active'', ''inactive''}"
    by (simp add: initialFormData_def)
  show ?thesis
    using submitRule_capitalizes_offered_values [OF h1 h2]
    by (auto simp: initialFormData_def)
qed

text \<open>
  Claim C4, as the specification states it: no payload submitted to the rules API has an
  empty condition list. The initial draft has no condition, and the click handler posts
  it with the empty list.
\<close>

theorem submitRule_empty_conditions_counterexample:
  "conditions initialFormData = []
   \<and> submitRule \<lparr>formData = initialFormData, selectedRule = None, invalidated = []\<rparr>
       = Inr \<lparr>url = ''/api/rules'', http_method = POST, body = ruleData initialFormData\<rparr>
   \<and> conditions (ruleData initialFormData) = []"
  by (simp add: submitRule_def ruleData_def initialFormData_def)

text \<open>
  Claim C4, amended. The payload of every submission carries the condition list of the
  draft as it is; it is empty exactly when the draft has no condition, which the client
  does not prevent.
\<close>

theorem submitRule_carries_conditions:
  "\<exists>req. submitRule st = Inr req
     \<and> conditions (body req) = conditions (formData st)
     \<and> (conditions (body req) = [] \<longleftrightarrow> conditions (formData st) = [])"
proof (cases "selectedRule st")
  case None
  then show ?thesis by (simp add: submitRule_def ruleData_def)
next
  case (Some rid)
  then show ?thesis by (cases "rid = []") (simp_all add: submitRule_def ruleData_def)
qed

theorem submitRule_carries_conditions_witness:
  "(\<exists>req. submitRule
             \<lparr>formData = initialFormData\<lparr>conditions := defaultConditions\<rparr>,
              selectedRule = None, invalidated = []\<rparr> = Inr req
        \<and> conditions (body req) = defaultConditions
        \<and> conditions (body req) \<noteq> [])"
  using submitRule_carries_conditions
      [of "\<lparr>formData = initialFormData\<lparr>conditions := defaultConditions\<rparr>,
              selectedRule = None, invalidated = []\<rparr>"]
  by (auto simp: defaultConditions_def)

text \<open>
  Claim C5. When the response to a create (POST) or update (PUT) request is a failure,
  that is, its status code is outside 200 to 299, the callback leaves the page state as
  it is: the draft, the selected rule and the query cache are those from before the
  response. A rejected request runs no callback and changes nothing either.
\<close>

theorem failed_response_keeps_state:
  assumes "\<not> ok code"
  shows "settle m (Resolved code) st = st
       \<and> formData (settle m (Resolved code) st) = formData st
       \<and> selectedRule (settle m (Resolved code) st) = selectedRule st
       \<and> settle m Rejected st = st"
  using assms by (cases m) (simp_all add: onUpdateResponse_def onCreateResponse_def)

theorem failed_response_keeps_state_witness:
  "\<not> ok 500
   \<and> settle POST (Resolved 500)
       \<lparr>formData = initialFormData\<lparr>name := ''Large''\<rparr>, selectedRule = None, invalidated = []\<rparr>
     = \<lparr>formData = initialFormData\<lparr>name := ''Large''\<rparr>, selectedRule = None, invalidated = []\<rparr>
   \<and> \<not> ok 404
   \<and> settle PUT (Resolved 404)
       \<lparr>formData = initialFormData, selectedRule = Some ''R001'', invalidated = []\<rparr>
     = \<lparr>formData = initialFormData, selectedRule = Some ''R001'', invalidated = []\<rparr>"
proof -
  have h1: "\<not> ok 500" by (simp add: ok_def)
  have h2: "\<not> ok 404" by (simp add: ok_def)
  show ?thesis
    using h1 h2
      failed_response_keeps_state [OF h1, of POST
        "\<lparr>formData = initialFormData\<lparr>name := ''Large''\<rparr>, selectedRule = None,
          invalidated = []\<rparr>"]
      failed_response_keeps_state [OF h2, of PUT
        "\<lparr>formData = initialFormData, selectedRule = Some ''R001'', invalidated = []\<rparr>"]
    by simp
qed

text \<open>
  Claim C9. For a draft with priority \<^verbatim>\<open>high\<close> and status \<^verbatim>\<open>active\<close> the payload has
  priority \<^verbatim>\<open>High\<close> and status \<^verbatim>\<open>Active\<close>, and its name, description, conditions and
  match logic are those of the draft. The draft named High Amount with the single
  condition amount greater than 10000 is the instance checked after the theorem.
\<close>

theorem ruleData_high_active:
  assumes "priority fd = ''high''" and "status fd = ''active''"
  shows "priority (ruleData fd) = ''High''
       \<and> status (ruleData fd) = ''Active''
       \<and> name (ruleData fd) = name fd
       \<and> description (ruleData fd) = description fd
       \<and> conditions (ruleData fd) = conditions fd
       \<and> matchLogic (ruleData fd) = matchLogic fd"
  using assms by (simp add: ruleData_def capitalized_high capitalized_active)

theorem ruleData_high_active_witness:
  "ruleData
     \<lparr>name = ''High Amount'', description = '''', priority = ''high'', status = ''active'',
      conditions = [Obj \<lparr>field = Some ''amount'', operator = Some ''greater_than'',
                         value = Some ''10000''\<rparr>],
      matchLogic = ''all''\<rparr>
   = \<lparr>name = ''High Amount'', description = '''', priority = ''High'', status = ''Active'',
      conditions = [Obj \<lparr>field = Some ''amount'', operator = Some ''greater_than'',
                         value = Some ''10000''\<rparr>],
      matchLogic = ''all''\<rparr>"
proof -
  let ?fd = "\<lparr>name = ''High Amount'', description = '''', priority = ''high'',
      status = ''active'',
      conditions = [Obj \<lparr>field = Some ''amount'', operator = Some ''greater_than'',
                         value = Some ''10000''\<rparr>],
      matchLogic = ''all''\<rparr>"
  have h1: "priority ?fd = ''high''" by simp
  have h2: "status ?fd = ''active''" by simp
  have "ruleData ?fd = \<lparr>name = name (ruleData ?fd), description = description (ruleData ?fd),
      priority = priority (ruleData ?fd), status = status (ruleData ?fd),
      conditions = conditions (ruleData ?fd), matchLogic = matchLogic (ruleData ?fd)\<rparr>"
    by simp
  then show ?thesis
    using ruleData_high_active [OF h1 h2] by simp
qed

section \<open>Pagination\<close>

text \<open>
  Claim C10, as stated: for every current page between 1 and the number of pages, a
  click requests only a page between 1 and the number of pages. The props are numbers,
  not integers, and the component has no guard of its own. With the current page 2 and
  2.5 pages in total, both inside the claim's bounds, the Next button is enabled and
  its click requests page 3, which is beyond the total.
\<close>

theorem Pagination_fractional_total_counterexample:
  "(1::real) \<le> 2 \<and> (2::real) \<le> 5 / 2
   \<and> \<not> disabled (nextButton (Pagination 2 (5 / 2)))
   \<and> click (nextButton (Pagination 2 (5 / 2))) = [3]
   \<and> \<not> (3::real) \<le> 5 / 2"
  by (simp add: Pagination_def click_def)

text \<open>
  Claim C10, amended. For integer page numbers with 1 \<open>\<le>\<close> current page \<open>\<le>\<close> number of
  pages \<open>\<le> 2\<^sup>5\<^sup>3\<close>, the Previous button is disabled exactly when the current page is 1
  and the Next button exactly when it is the last page; a click on either button calls
  \<^verbatim>\<open>onPageChange\<close> at most once, with the page before or the page after the current
  one, and that page lies between 1 and the number of pages.
\<close>

theorem Pagination_requests_in_range:
  assumes "1 \<le> c" and "c \<le> t" and "t \<le> 9007199254740992"
  shows "(disabled (previousButton (Pagination (of_int c) (of_int t))) \<longleftrightarrow> c = 1)
       \<and> (disabled (nextButton (Pagination (of_int c) (of_int t))) \<longleftrightarrow> c = t)
       \<and> click (previousButton (Pagination (of_int c) (of_int t))) =
            (if c = 1 then [] else [of_int (c - 1)])
       \<and> click (nextButton (Pagination (of_int c) (of_int t))) =
            (if c = t then [] else [of_int (c + 1)])
       \<and> (\<forall>p \<in> set (click (previousButton (Pagination (of_int c) (of_int t))) @
                      click (nextButton (Pagination (of_int c) (of_int t)))).
              (p = of_int c - 1 \<or> p = of_int c + 1) \<and> 1 \<le> p \<and> p \<le> of_int t)"
proof -
  let ?P = "Pagination (of_int c) (of_int t)"
  have d1: "disabled (previousButton ?P) \<longleftrightarrow> c = 1"
    by (simp add: Pagination_def)
  have d2: "disabled (nextButton ?P) \<longleftrightarrow> c = t"
    by (simp add: Pagination_def)
  have c1: "click (previousButton ?P) = (if c = 1 then [] else [of_int (c - 1)])"
    by (simp add: Pagination_def click_def)
  have c2: "click (nextButton ?P) = (if c = t then [] else [of_int (c + 1)])"
    by (simp add: Pagination_def click_def)
  have lo: "c \<noteq> 1 \<Longrightarrow> (1::real) \<le> of_int (c - 1) \<and> (of_int (c - 1) :: real) \<le> of_int t"
  proof -
    assume "c \<noteq> 1"
    with assms(1,2) have "1 \<le> c - 1" and "c - 1 \<le> t" by linarith+
    then show ?thesis by (metis of_int_1 of_int_le_iff)
  qed
  have hi: "c \<noteq> t \<Longrightarrow> (1::real) \<le> of_int (c + 1) \<and> (of_int (c + 1) :: real) \<le> of_int t"
  proof -
    assume "c \<noteq> t"
    with assms(1,2) have "1 \<le> c + 1" and "c + 1 \<le> t" by linarith+
    then show ?thesis by (metis of_int_1 of_int_le_iff)
  qed
  have rng: "\<forall>p \<in> set (click (previousButton ?P) @ click (nextButton ?P)).
               (p = of_int c - 1 \<or> p = of_int c + 1) \<and> 1 \<le> p \<and> p \<le> of_int t"
    unfolding c1 c2 using lo hi by (cases "c = 1"; cases "c = t") auto
  from d1 d2 c1 c2 rng show ?thesis by blast
qed

theorem Pagination_requests_in_range_witness:
  "(1::int) \<le> 2 \<and> (2::int) \<le> 3 \<and> (3::int) \<le> 9007199254740992
   \<and> \<not> disabled (previousButton (Pagination 2 3))
   \<and> \<not> disabled (nextButton (Pagination 2 3))
   \<and> click (previousButton (Pagination 2 3)) = [1]
   \<and> click (nextButton (Pagination 2 3)) = [3]
   \<and> (1::int) \<le> 1
   \<and> click (previousButton (Pagination 1 1)) = []
   \<and> click (nextButton (Pagination 1 1)) = []"
proof -
  have a: "(1::int) \<le> 2" and b: "(2::int) \<le> 3" and c: "(1::int) \<le> 1"
    and d: "(3::int) \<le> 9007199254740992" and e: "(1::int) \<le> 9007199254740992"
    by simp_all
  show ?thesis
    using Pagination_requests_in_range [OF a b d] Pagination_requests_in_range [OF c c e]
    by simp
qed

end
